theory Spec2Isabelle
  imports Main
begin

section \<open>Strings\<close>

text \<open>
  The program is TypeScript; its strings are sequences of UTF-16 code units. The model
  uses \<^typ>\<open>string\<close> (a list of \<^typ>\<open>char\<close>), read as code units below 256. In that
  range the characters that \<open>String.prototype.trim\<close> removes and that \<open>\s\<close> matches
  are TAB, LF, VT, FF, CR, SPACE and NBSP.
\<close>

definition LF :: char where
  "LF = CHR 0x0A"

definition CR :: char where
  "CR = CHR 0x0D"

definition isWhiteSpace :: "char \<Rightarrow> bool" where
  "isWhiteSpace c = (c \<in> set [CHR 0x09, CHR 0x0A, CHR 0x0B, CHR 0x0C, CHR 0x0D, CHR 0x20, CHR 0xA0])"

definition isDigit :: "char \<Rightarrow> bool" where
  "isDigit c = (c \<in> set ''0123456789'')"

text \<open>\<open>s.trim()\<close>\<close>

definition trim :: "string \<Rightarrow> string" where
  "trim s = rev (dropWhile isWhiteSpace (rev (dropWhile isWhiteSpace s)))"

text \<open>\<open>s.startsWith(p)\<close>, \<open>s.endsWith(p)\<close>, \<open>s.includes(p)\<close>, \<open>s.substring(1)\<close>\<close>

definition startsWith :: "string \<Rightarrow> string \<Rightarrow> bool" where
  "startsWith s p = (take (length p) s = p)"

definition endsWith :: "string \<Rightarrow> string \<Rightarrow> bool" where
  "endsWith s p = startsWith (rev s) (rev p)"

fun includesStr :: "string \<Rightarrow> string \<Rightarrow> bool" where
  "includesStr [] p = (p = [])"
| "includesStr (c # cs) p = (startsWith (c # cs) p \<or> includesStr cs p)"

definition substring1 :: "string \<Rightarrow> string" where
  "substring1 s = drop 1 s"

text \<open>\<open>s.split('\n')\<close>: never empty, the empty string gives one empty line.\<close>

fun splitOn :: "char \<Rightarrow> string \<Rightarrow> string list" where
  "splitOn d [] = [[]]"
| "splitOn d (c # cs) =
     (if c = d then [] # splitOn d cs
      else (case splitOn d cs of l # ls \<Rightarrow> (c # l) # ls | [] \<Rightarrow> [[c]]))"

text \<open>\<open>ls.join('\n')\<close>\<close>

fun joinLines :: "string list \<Rightarrow> string" where
  "joinLines [] = []"
| "joinLines [l] = l"
| "joinLines (l # m # ls) = l @ LF # joinLines (m # ls)"

text \<open>\<open>s.replace(/\r\n/g, '\n').replace(/\r/g, '\n')\<close>, one function per pass.\<close>

fun replaceCRLF :: "string \<Rightarrow> string" where
  "replaceCRLF (c # d # cs) =
     (if c = CR \<and> d = LF then LF # replaceCRLF cs else c # replaceCRLF (d # cs))"
| "replaceCRLF cs = cs"

definition replaceCR :: "string \<Rightarrow> string" where
  "replaceCR s = map (\<lambda>c. if c = CR then LF else c) s"

definition normalizeNewlines :: "string \<Rightarrow> string" where
  "normalizeNewlines s = replaceCR (replaceCRLF s)"

section \<open>Library table and content objects\<close>

text \<open>
  \<open>LibraryVersions\<close>, with two fields renamed because their names are taken:
  \<open>text\<close> is \<open>textLib\<close> and \<open>image\<close> is \<open>imageLib\<close>. A field of type
  \<open>string | null\<close> is a \<^typ>\<open>string option\<close>.
\<close>

record LibraryVersions =
  column :: string
  textLib :: string
  isAdvancedText :: bool
  accordion :: "string option"
  singleChoice :: "string option"
  imageLib :: "string option"
  video :: "string option"
  blanks :: "string option"
  dragText :: "string option"

text \<open>
  The test every builder starts with, \<open>!libs.x || libs.x.includes("null")\<close>: null and
  the empty string are falsy.
\<close>

definition libMissing :: "string option \<Rightarrow> bool" where
  "libMissing v = (case v of None \<Rightarrow> True | Some s \<Rightarrow> s = [] \<or> includesStr s ''null'')"

text \<open>
  \<open>H5PMetadata\<close> as \<open>createMetadata\<close> fills it (\<open>authors\<close> and \<open>changes\<close> are always
  the empty array and are left out; \<open>title\<close> is \<open>metaTitle\<close> here). The
  \<open>subContentId\<close> fields hold fresh \<open>uuidv4()\<close> values; they come from a random source
  outside the program and are left out of the records.
\<close>

record H5PMetadata =
  license :: string
  metaTitle :: string
  contentType :: string

definition createMetadata :: "string \<Rightarrow> string \<Rightarrow> H5PMetadata" where
  "createMetadata t ct = \<lparr>license = ''U'', metaTitle = t, contentType = ct\<rparr>"

record 'p H5PContentObject =
  library :: string
  params :: 'p
  metadata :: H5PMetadata

section \<open>Quiz builder\<close>

record SingleChoice =
  question :: string
  answers :: "string list"

record SingleChoiceSetBehaviour =
  autoContinue :: bool
  enableRetry :: bool
  enableSolutionsButton :: bool
  passPercentage :: nat
  soundEffectsEnabled :: bool
  timeoutCorrect :: nat
  timeoutWrong :: nat

record SingleChoiceSetParams =
  choices :: "SingleChoice list"
  behaviour :: SingleChoiceSetBehaviour

text \<open>
  The loop of \<open>buildQuizObject\<close> over the block's lines. Its state is the pair of the
  local variables \<open>choices\<close> and \<open>currentChoice\<close> (null is \<open>None\<close>). \<open>unshift\<close>
  puts an answer in front, \<open>push\<close> at the end.
\<close>

type_synonym quizState = "SingleChoice list \<times> SingleChoice option"

definition isQuestion :: "string \<Rightarrow> bool" where
  "isQuestion line = startsWith (trim line) ''?''"

definition isCorrect :: "string \<Rightarrow> bool" where
  "isCorrect line = startsWith (trim line) ''*''"

definition isWrong :: "string \<Rightarrow> bool" where
  "isWrong line = startsWith (trim line) ''-''"

text \<open>\<open>trimmed.substring(1).trim()\<close>, the text of a question or of an answer.\<close>

definition markedText :: "string \<Rightarrow> string" where
  "markedText line = trim (substring1 (trim line))"

fun pushChoice :: "SingleChoice list \<Rightarrow> SingleChoice option \<Rightarrow> SingleChoice list" where
  "pushChoice cs None = cs"
| "pushChoice cs (Some c) = cs @ [c]"

fun quizStep :: "quizState \<Rightarrow> string \<Rightarrow> quizState" where
  "quizStep (cs, currentChoice) line =
     (if isQuestion line then
        (pushChoice cs currentChoice, Some \<lparr>question = markedText line, answers = []\<rparr>)
      else (case currentChoice of
        None \<Rightarrow> (cs, None)
      | Some c \<Rightarrow>
          if isCorrect line then (cs, Some (c\<lparr>answers := markedText line # answers c\<rparr>))
          else if isWrong line then (cs, Some (c\<lparr>answers := answers c @ [markedText line]\<rparr>))
          else (cs, Some c)))"

definition quizChoices :: "string list \<Rightarrow> SingleChoice list" where
  "quizChoices lines = (case foldl quizStep ([], None) lines of (cs, cur) \<Rightarrow> pushChoice cs cur)"

definition quizBehaviour :: SingleChoiceSetBehaviour where
  "quizBehaviour =
     \<lparr>autoContinue = True, enableRetry = True, enableSolutionsButton = True,
      passPercentage = 100, soundEffectsEnabled = True,
      timeoutCorrect = 2000, timeoutWrong = 3000\<rparr>"

definition buildQuizObject ::
  "string list \<Rightarrow> LibraryVersions \<Rightarrow> SingleChoiceSetParams H5PContentObject option" where
  "buildQuizObject lines libs =
     (case singleChoice libs of
        None \<Rightarrow> None
      | Some lib \<Rightarrow>
          if libMissing (Some lib) then None
          else Some \<lparr>library = lib,
                     params = \<lparr>choices = quizChoices lines, behaviour = quizBehaviour\<rparr>,
                     metadata = createMetadata ''Quiz'' ''Single Choice Set''\<rparr>)"

section \<open>Accordion builder\<close>

text \<open>
  The panels that the first loop of \<open>buildAccordionObject\<close> collects: \<open>title\<close>
  (here \<open>panelTitle\<close>) and \<open>markdownLines\<close>.
\<close>

record panel =
  panelTitle :: string
  markdownLines :: "string list"

text \<open>\<open>line.replace(/^\+{3,}\s*/, '')\<close>: the pattern is anchored at the start of the
  line as it stands, not of the trimmed line.\<close>

definition stripPanelMarker :: "string \<Rightarrow> string" where
  "stripPanelMarker line =
     (if startsWith line ''+++''
      then dropWhile isWhiteSpace (dropWhile (\<lambda>c. c = CHR ''+'') line)
      else line)"

text \<open>\<open>line.replace(/^\+{3,}\s*/, '').trim() || "Panel"\<close>\<close>

definition panelTitleOf :: "string \<Rightarrow> string" where
  "panelTitleOf line = (let t = trim (stripPanelMarker line) in if t = [] then ''Panel'' else t)"

definition isPanelMarker :: "string \<Rightarrow> bool" where
  "isPanelMarker line = startsWith (trim line) ''+++''"

text \<open>
  \<open>currentPanel\<close> is a reference to an object that is already in \<open>panels\<close>, so
  \<open>currentPanel.markdownLines.push(line)\<close> changes the panel inside the array. The
  reference is modelled as the panel's index in \<open>panels\<close>.
\<close>

type_synonym accordionState = "panel list \<times> nat option"

fun accordionStep :: "accordionState \<Rightarrow> string \<Rightarrow> accordionState" where
  "accordionStep (panels, currentPanel) line =
     (if isPanelMarker line then
        (panels @ [\<lparr>panelTitle = panelTitleOf line, markdownLines = []\<rparr>], Some (length panels))
      else (case currentPanel of
        None \<Rightarrow> (panels, None)
      | Some i \<Rightarrow>
          (panels[i := (panels ! i)\<lparr>markdownLines := markdownLines (panels ! i) @ [line]\<rparr>],
           Some i)))"

definition accordionPanels :: "string list \<Rightarrow> panel list" where
  "accordionPanels lines = fst (foldl accordionStep ([], None) lines)"

text \<open>
  \<open>AccordionParams\<close>: a processed panel \<open>{title, content}\<close> is a pair, \<open>content\<close>
  being a text object whose \<open>params.text\<close> is the panel's markup. The parameter
  \<open>toHtml\<close> stands for the external renderer \<open>marked.parse\<close> followed by
  \<open>processHtmlContent\<close>.
\<close>

record AccordionParams =
  panels :: "(string \<times> string H5PContentObject) list"
  hTag :: string

definition buildAccordionObject ::
  "(string \<Rightarrow> string) \<Rightarrow> string list \<Rightarrow> LibraryVersions \<Rightarrow> AccordionParams H5PContentObject option" where
  "buildAccordionObject toHtml lines libs =
     (case accordion libs of
        None \<Rightarrow> None
      | Some lib \<Rightarrow>
          if libMissing (Some lib) then None
          else Some \<lparr>library = lib,
                     params = \<lparr>panels = map (\<lambda>p.
                         (panelTitle p,
                          (let finalHtml = toHtml (joinLines (markdownLines p)) in
                           \<lparr>library = textLib libs,
                            params = (if finalHtml = [] then ''<p></p>'' else finalHtml),
                            metadata = createMetadata ''Panel Content'' ''Text''\<rparr>)))
                         (accordionPanels lines),
                       hTag = ''h2''\<rparr>,
                     metadata = createMetadata ''Accordion'' ''Accordion''\<rparr>)"

section \<open>Segmentation parser\<close>

datatype blockType = BText | BAccordion | BQuiz | BImage | BVideo | BFill | BDrag

text \<open>\<open>ContentBlock\<close>; its field \<open>type\<close> is \<open>kind\<close> here.\<close>

record ContentBlock =
  kind :: blockType
  lines :: "string list"

text \<open>
  \<open>imageRegex.test(s)\<close> for \<open>/^!\[(.*?)\]\((.*?)\)/\<close>. A dot matches any character
  but a line terminator, so a match lies inside the longest prefix free of LF and CR; it
  needs \<open>![\<close> first, later \<open>](\<close>, and a closing parenthesis after that.
\<close>

fun afterFirst :: "string \<Rightarrow> string \<Rightarrow> string option" where
  "afterFirst p [] = (if p = [] then Some [] else None)"
| "afterFirst p (c # cs) =
     (if startsWith (c # cs) p then Some (drop (length p) (c # cs)) else afterFirst p cs)"

definition imageRegexTest :: "string \<Rightarrow> bool" where
  "imageRegexTest s =
     (startsWith s ''!['' \<and>
      (case afterFirst '']('' (takeWhile (\<lambda>c. c \<noteq> LF \<and> c \<noteq> CR) (drop 2 s)) of
         None \<Rightarrow> False
       | Some rest \<Rightarrow> CHR '')'' \<in> set rest))"

text \<open>
  The state of \<open>parseChapterSegments\<close>: \<open>blocks\<close>, \<open>currentLines\<close> and
  \<open>currentType\<close>. \<open>flush\<close> is the closure of that name.
\<close>

type_synonym segState = "ContentBlock list \<times> string list \<times> blockType"

fun flush :: "blockType \<Rightarrow> segState \<Rightarrow> segState" where
  "flush newType (blocks, currentLines, currentType) =
     ((if currentLines \<noteq> [] \<and>
          (currentType \<noteq> BText \<or> list_ex (\<lambda>l. trim l \<noteq> []) currentLines)
       then blocks @ [\<lparr>kind = currentType, lines = currentLines\<rparr>]
       else blocks),
      [], newType)"

fun parseStep :: "segState \<Rightarrow> string \<Rightarrow> segState" where
  "parseStep (blocks, currentLines, currentType) line =
     (let trimmed = trim line in
      if trimmed = ''[ACCORDION]'' then flush BAccordion (blocks, currentLines, currentType)
      else if trimmed = ''[QUIZ]'' then flush BQuiz (blocks, currentLines, currentType)
      else if trimmed = ''[VIDEO]'' then flush BVideo (blocks, currentLines, currentType)
      else if trimmed = ''[FILL]'' then flush BFill (blocks, currentLines, currentType)
      else if trimmed = ''[DRAG]'' then flush BDrag (blocks, currentLines, currentType)
      else if trimmed = ''[TEXT]'' then flush BText (blocks, currentLines, currentType)
      else if imageRegexTest trimmed \<and> currentType = BText then
        (case flush BText (blocks, currentLines, currentType) of
           (blocks', _, _) \<Rightarrow> (blocks' @ [\<lparr>kind = BImage, lines = [trimmed]\<rparr>], [], BText))
      else (blocks, currentLines @ [line], currentType))"

definition parseChapterSegments :: "string \<Rightarrow> ContentBlock list" where
  "parseChapterSegments markdown =
     fst (flush BText
       (foldl parseStep ([], [], BText) (splitOn LF (normalizeNewlines markdown))))"

section \<open>Chapter splitting in buildH5P\<close>

text \<open>
  Step 1 of \<open>buildH5P\<close> (``Parse Markdown''): the document is normalised and split
  into lines (\<open>documentLines\<close>), the state is initialised from \<open>lines[0]\<close>
  (\<open>splitInit\<close>), the \<open>forEach\<close> loop runs (\<open>splitStep\<close>) and the last chapter
  is pushed (\<open>splitLines\<close>); \<open>parseMarkdown\<close> adds the throw that follows. An element
  of \<open>chaptersData\<close> is a \<open>chapterData\<close>.
\<close>

record chapterData =
  title :: string
  content :: string

datatype buildError = NoChaptersFound | TypeError

definition isHeading :: "string \<Rightarrow> bool" where
  "isHeading line = startsWith (trim line) ''# ''"

text \<open>\<open>line.replace(/^#\s+/, '').trim()\<close>, the pattern again anchored at the start of
  the untrimmed line.\<close>

definition headingTitle :: "string \<Rightarrow> string" where
  "headingTitle line =
     trim (case line of
             c # r \<Rightarrow> if c = CHR ''#'' \<and> r \<noteq> [] \<and> isWhiteSpace (hd r)
                      then dropWhile isWhiteSpace r else line
           | [] \<Rightarrow> [])"

text \<open>
  The state of the \<open>forEach\<close> loop: \<open>chaptersData\<close>, \<open>currentTitle\<close>,
  \<open>currentLines\<close>, \<open>isImplicit\<close>. A string is truthy when it is not empty.
\<close>

type_synonym splitState = "chapterData list \<times> string \<times> string list \<times> bool"

fun splitStep :: "splitState \<Rightarrow> string \<Rightarrow> splitState" where
  "splitStep (chaptersData, currentTitle, currentLines, isImplicit) line =
     (if isHeading line then
        ((if currentTitle \<noteq> [] \<and> (currentLines \<noteq> [] \<or> \<not> isImplicit)
          then chaptersData @ [\<lparr>title = currentTitle, content = joinLines currentLines\<rparr>]
          else chaptersData),
         headingTitle line, [], False)
      else (chaptersData, currentTitle, currentLines @ [line], isImplicit))"

definition splitInit :: "string list \<Rightarrow> splitState" where
  "splitInit ls =
     (case ls of
        l # _ \<Rightarrow> if isHeading l then ([], [], [], False) else ([], ''Introduction'', [], True)
      | [] \<Rightarrow> ([], ''Introduction'', [], True))"

definition splitLines :: "string list \<Rightarrow> chapterData list" where
  "splitLines ls =
     (case foldl splitStep (splitInit ls) ls of
        (chaptersData, currentTitle, currentLines, isImplicit) \<Rightarrow>
          if currentTitle \<noteq> [] \<and> currentLines \<noteq> []
          then chaptersData @ [\<lparr>title = currentTitle, content = joinLines currentLines\<rparr>]
          else chaptersData)"

definition documentLines :: "string \<Rightarrow> string list" where
  "documentLines text = splitOn LF (normalizeNewlines text)"

text \<open>
  The whole of step 1, with \<open>throw new Error("No chapters found. ...")\<close> as the
  error value \<open>NoChaptersFound\<close>.
\<close>

definition parseMarkdown :: "string \<Rightarrow> buildError + chapterData list" where
  "parseMarkdown text =
     (let chaptersData = splitLines (documentLines text)
      in if chaptersData = [] then Inl NoChaptersFound else Inr chaptersData)"

section \<open>Library version resolver\<close>

text \<open>
  \<open>H5PDependency\<close>, a dependency of the manifest \<open>h5p.json\<close>. The model covers
  manifests whose version fields are natural numbers below \<open>10^21\<close>: for these a
  template literal prints the decimal digits, which is what \<open>showNat\<close> computes. A
  field that is a fraction, negative, \<open>10^21\<close> or more, or absent is printed by the
  code in another form (a sign, a point, an exponent, \<open>undefined\<close>) and is outside the
  model.
\<close>

record H5PDependency =
  machineName :: string
  majorVersion :: nat
  minorVersion :: nat

text \<open>
  \<open>zip.files\<close>: the archive's entries by path, in the order \<open>Object.keys\<close> lists
  them. Of an entry the model keeps the \<open>dir\<close> flag and the contents. An object has
  each key once, so the keys of a table are distinct.
\<close>

record zipObject =
  dir :: bool
  fileData :: string

type_synonym zipFiles = "(string \<times> zipObject) list"

fun showNat :: "nat \<Rightarrow> string" where
  "showNat n =
     (if n < 10 then [''0123456789'' ! n]
      else showNat (n div 10) @ [''0123456789'' ! (n mod 10)])"

text \<open>\<open>s.replace(p, '')\<close> with a string pattern: the first occurrence goes.\<close>

fun removeFirst :: "string \<Rightarrow> string \<Rightarrow> string" where
  "removeFirst [] p = []"
| "removeFirst (c # cs) p =
     (if startsWith (c # cs) p then drop (length p) (c # cs) else c # removeFirst cs p)"

text \<open>\<open>versionPart.match(/^\d+\.\d+$/)\<close>\<close>

definition isVersion :: "string \<Rightarrow> bool" where
  "isVersion s =
     (takeWhile isDigit s \<noteq> [] \<and>
      (case dropWhile isDigit s of
         [] \<Rightarrow> False
       | c # r \<Rightarrow> c = CHR ''.'' \<and> r \<noteq> [] \<and> list_all isDigit r))"

definition getLibVersion ::
  "zipFiles \<Rightarrow> H5PDependency list \<Rightarrow> string \<Rightarrow> string \<Rightarrow> string" where
  "getLibVersion archive deps name defaultVersion =
     (case find (\<lambda>d. machineName d = name) deps of
        Some dep \<Rightarrow>
          machineName dep @ '' '' @ showNat (majorVersion dep) @ ''.'' @ showNat (minorVersion dep)
      | None \<Rightarrow>
          (let prefix = name @ ''-'' in
           case find (\<lambda>path. startsWith path prefix \<and> includesStr path ''/'') (map fst archive) of
             Some foundFolder \<Rightarrow>
               (let folderName = hd (splitOn (CHR ''/'') foundFolder);
                    versionPart = removeFirst folderName prefix
                in if isVersion versionPart then name @ '' '' @ versionPart
                   else name @ '' '' @ defaultVersion)
           | None \<Rightarrow> name @ '' '' @ defaultVersion))"

text \<open>
  Step 4 of \<open>buildH5P\<close> (``Resolve versions''): the table \<open>libs\<close>. Every entry is
  a string that \<open>getLibVersion\<close> returns, never null.
\<close>

definition resolveVersions :: "zipFiles \<Rightarrow> H5PDependency list \<Rightarrow> LibraryVersions" where
  "resolveVersions archive deps =
     (let advancedTextFound = getLibVersion archive deps ''H5P.AdvancedText'' [];
          textLib = (if advancedTextFound \<noteq> [] \<and> \<not> includesStr advancedTextFound ''undefined''
                     then advancedTextFound
                     else getLibVersion archive deps ''H5P.Text'' ''1.0'')
      in \<lparr>column = getLibVersion archive deps ''H5P.Column'' ''1.13'',
          textLib = textLib,
          isAdvancedText = startsWith textLib ''H5P.AdvancedText'',
          accordion = Some (getLibVersion archive deps ''H5P.Accordion'' ''1.0''),
          singleChoice = Some (getLibVersion archive deps ''H5P.SingleChoiceSet'' ''1.11''),
          imageLib = Some (getLibVersion archive deps ''H5P.Image'' ''1.1''),
          video = Some (getLibVersion archive deps ''H5P.Video'' ''1.5''),
          blanks = Some (getLibVersion archive deps ''H5P.Blanks'' ''1.12''),
          dragText = Some (getLibVersion archive deps ''H5P.DragText'' ''1.8'')\<rparr>)"

section \<open>Directory-entry repair in buildH5P\<close>

text \<open>
  The block of \<open>buildH5P\<close> between the comments ``MOODLE FIX'' and ``END MOODLE FIX'',
  as a function of the entry table \<open>zip.files\<close>. First \<open>delete zip.files[key]\<close>:
\<close>

definition deleteKey :: "string \<Rightarrow> zipFiles \<Rightarrow> zipFiles" where
  "deleteKey key files = filter (\<lambda>entry. fst entry \<noteq> key) files"

text \<open>
  The body of the \<open>forEach\<close> over the keys listed before the loop starts. Reading
  \<open>.dir\<close> of a key that is not in the table throws a TypeError.
\<close>

fun moodleFixStep :: "buildError + zipFiles \<Rightarrow> string \<Rightarrow> buildError + zipFiles" where
  "moodleFixStep (Inl e) key = Inl e"
| "moodleFixStep (Inr files) key =
     (if startsWith key ''content/'' \<and> endsWith key ''/'' then
        (case map_of files key of
           None \<Rightarrow> Inl TypeError
         | Some entry \<Rightarrow> if dir entry then Inr (deleteKey key files) else Inr files)
      else Inr files)"

text \<open>
  The entry \<open>content/\<close> is deleted when the table has it, whatever its flag; then the
  loop runs over \<open>Object.keys(zip.files)\<close>, the keys of the table at that moment.
\<close>

definition moodleFix :: "zipFiles \<Rightarrow> buildError + zipFiles" where
  "moodleFix files =
     (let files1 = (if map_of files ''content/'' \<noteq> None then deleteKey ''content/'' files
                    else files)
      in foldl moodleFixStep (Inr files1) (map fst files1))"

section \<open>Auxiliary predicates of the proofs\<close>

text \<open>Every text block of a block list holds a line that is not blank.\<close>

definition textBlocksHaveContent :: "ContentBlock list \<Rightarrow> bool" where
  "textBlocksHaveContent bs =
     (\<forall>b\<in>set bs. kind b = BText \<longrightarrow> list_ex (\<lambda>l. trim l \<noteq> []) (lines b))"

text \<open>The paths the repair looks for: under the content root and ending in the separator.\<close>

definition isContentDirPath :: "string \<Rightarrow> bool" where
  "isContentDirPath key = (startsWith key ''content/'' \<and> endsWith key ''/'')"

text \<open>
  Every image block holds one line, which matches the image pattern, and no line of a
  text block matches it; \<open>imageInvariant\<close> adds what the parser's state needs for that.
\<close>

definition imageBlocksSeparate :: "ContentBlock list \<Rightarrow> bool" where
  "imageBlocksSeparate bs =
     (\<forall>b\<in>set bs.
        (kind b = BImage \<longrightarrow> (\<exists>l. lines b = [l] \<and> imageRegexTest l)) \<and>
        (kind b = BText \<longrightarrow> list_all (\<lambda>l. \<not> imageRegexTest (trim l)) (lines b)))"

definition imageInvariant :: "segState \<Rightarrow> bool" where
  "imageInvariant st =
     (case st of (blocks, currentLines, currentType) \<Rightarrow>
        imageBlocksSeparate blocks \<and> currentType \<noteq> BImage \<and>
        (currentType = BText \<longrightarrow> list_all (\<lambda>l. \<not> imageRegexTest (trim l)) currentLines))"

text \<open>
  A state of the chapter loop from which the final push leaves at least one chapter.
\<close>

definition someChapter :: "splitState \<Rightarrow> bool" where
  "someChapter st =
     (case st of (chaptersData, currentTitle, currentLines, isImplicit) \<Rightarrow>
        chaptersData \<noteq> [] \<or> (currentTitle \<noteq> [] \<and> currentLines \<noteq> []))"

section \<open>Properties of the string functions\<close>

lemma splitOn_not_empty: "splitOn d s \<noteq> []"
  by (induction s) (auto split: list.splits)

section \<open>Properties of the quiz builder\<close>

lemma startsWith_single: "startsWith s [c] = (s \<noteq> [] \<and> hd s = c)"
  by (cases s) (auto simp: startsWith_def)

lemma isWrong_not_isCorrect: "isWrong l \<Longrightarrow> \<not> isCorrect l"
  by (auto simp: isWrong_def isCorrect_def startsWith_single)

lemma isCorrect_not_isQuestion: "isCorrect l \<Longrightarrow> \<not> isQuestion l"
  by (auto simp: isQuestion_def isCorrect_def startsWith_single)

lemma isWrong_not_isQuestion: "isWrong l \<Longrightarrow> \<not> isQuestion l"
  by (auto simp: isQuestion_def isWrong_def startsWith_single)

lemma quiz_before_first_question:
  "\<forall>l\<in>set pre. \<not> isQuestion l \<Longrightarrow> foldl quizStep (cs, None) pre = (cs, None)"
  by (induction pre) simp_all

lemma quiz_body:
  "\<forall>l\<in>set body. \<not> isQuestion l \<Longrightarrow>
   foldl quizStep (cs, Some c) body =
     (cs, Some (c\<lparr>answers := rev (map markedText (filter isCorrect body)) @ answers c @
                              map markedText (filter isWrong body)\<rparr>))"
proof (induction body arbitrary: c)
  case Nil
  then show ?case by simp
next
  case (Cons l body)
  then show ?case
    by (cases "isCorrect l"; cases "isWrong l") (simp_all add: isWrong_not_isCorrect)
qed

lemma pushChoice_append: "pushChoice (xs @ cs) cur = xs @ pushChoice cs cur"
  by (cases cur) simp_all

lemma quizStep_shift:
  "quizStep (xs @ cs, cur) l = (xs @ fst (quizStep (cs, cur) l), snd (quizStep (cs, cur) l))"
  by (cases cur) (simp_all add: pushChoice_append)

lemma quizLoop_shift:
  "foldl quizStep (xs @ cs, cur) ls =
     (xs @ fst (foldl quizStep (cs, cur) ls), snd (foldl quizStep (cs, cur) ls))"
proof (induction ls arbitrary: cs cur)
  case Nil
  then show ?case by simp
next
  case (Cons l ls)
  obtain cs' cur' where st: "quizStep (cs, cur) l = (cs', cur')"
    by (cases "quizStep (cs, cur) l")
  have "quizStep (xs @ cs, cur) l = (xs @ cs', cur')"
    using quizStep_shift [of xs cs cur l] st by simp
  with st Cons.IH [of cs' cur'] show ?case by simp
qed

lemma quizChoices_at_question:
  assumes "isQuestion q"
  shows "quizChoices (pre @ q # rest) = quizChoices pre @ quizChoices (q # rest)"
proof -
  obtain cs cur where pre: "foldl quizStep ([], None) pre = (cs, cur)"
    by (cases "foldl quizStep ([], None) pre")
  let ?new = "Some \<lparr>question = markedText q, answers = []\<rparr>"
  have "foldl quizStep ([], None) (pre @ q # rest) =
        foldl quizStep (pushChoice cs cur @ [], ?new) rest"
    using assms pre by simp
  also have "\<dots> = (pushChoice cs cur @ fst (foldl quizStep ([], ?new) rest),
                    snd (foldl quizStep ([], ?new) rest))"
    by (rule quizLoop_shift)
  finally show ?thesis
    using assms pre by (simp add: quizChoices_def pushChoice_append split: prod.splits)
qed

lemma quizChoices_one_question:
  assumes "isQuestion q" and "\<forall>l\<in>set body. \<not> isQuestion l"
  shows "quizChoices (q # body) =
         [\<lparr>question = markedText q,
           answers = rev (map markedText (filter isCorrect body)) @
                     map markedText (filter isWrong body)\<rparr>]"
  using assms by (simp add: quizChoices_def quiz_body)

lemma quizChoices_question:
  assumes "isQuestion q" and "\<forall>l\<in>set body. \<not> isQuestion l"
    and "rest = [] \<or> isQuestion (hd rest)"
  shows "quizChoices (pre @ q # body @ rest) =
         quizChoices pre @
         [\<lparr>question = markedText q,
           answers = rev (map markedText (filter isCorrect body)) @
                     map markedText (filter isWrong body)\<rparr>] @
         quizChoices rest"
proof (cases rest)
  case Nil
  have "quizChoices [] = []" by (simp add: quizChoices_def)
  with Nil assms show ?thesis
    by (simp add: quizChoices_at_question [of q pre] quizChoices_one_question)
next
  case (Cons r rest')
  with assms have r: "isQuestion r" by simp
  have "quizChoices (pre @ q # body @ rest) = quizChoices pre @ quizChoices (q # body @ r # rest')"
    using assms(1) Cons by (simp add: quizChoices_at_question [of q pre])
  also have "quizChoices (q # body @ r # rest') = quizChoices (q # body) @ quizChoices (r # rest')"
    using quizChoices_at_question [OF r, of "q # body" rest'] by simp
  finally show ?thesis
    using assms Cons by (simp add: quizChoices_one_question)
qed


lemma quizStep_unmarked:
  "\<not> isQuestion l \<Longrightarrow> \<not> isCorrect l \<Longrightarrow> \<not> isWrong l \<Longrightarrow> quizStep st l = st"
  by (cases st; cases "snd st") auto

lemma quizChoices_skip:
  assumes "quizStep (foldl quizStep ([], None) xs) l = foldl quizStep ([], None) xs"
  shows "quizChoices (xs @ l # ys) = quizChoices (xs @ ys)"
  using assms by (simp add: quizChoices_def)

text \<open>
  Claim C2, as the code has it. Take a quiz block \<open>pre @ q # body @ rest\<close> where \<open>q\<close>
  opens a question, \<open>body\<close> holds the lines of that question (none of them opens a
  question) and \<open>rest\<close> is empty or starts with the next question. When two or more
  lines of \<open>body\<close> are marked \<open>*\<close>, element 0 of that question's answers is the text
  of the last line marked \<open>*\<close>, since every such line is put in front of the ones
  before it.
\<close>

theorem quiz_last_correct_first:
  assumes "isQuestion q" and "\<forall>l\<in>set body. \<not> isQuestion l"
    and "rest = [] \<or> isQuestion (hd rest)"
    and "2 \<le> length (filter isCorrect body)"
  shows "answers (quizChoices (pre @ q # body @ rest) ! length (quizChoices pre)) ! 0 =
         markedText (last (filter isCorrect body))"
proof -
  let ?stars = "filter isCorrect body"
  from assms(4) have ne: "?stars \<noteq> []" by auto
  have "quizChoices (pre @ q # body @ rest) ! length (quizChoices pre) =
        \<lparr>question = markedText q,
         answers = rev (map markedText ?stars) @ map markedText (filter isWrong body)\<rparr>"
    using assms(1-3) by (simp add: quizChoices_question)
  moreover have "(rev (map markedText ?stars) @ map markedText (filter isWrong body)) ! 0 =
                 markedText (last ?stars)"
    using ne by (simp add: nth_append hd_conv_nth [symmetric] hd_rev last_map)
  ultimately show ?thesis by simp
qed

text \<open>The hypotheses of C2's theorem hold for a question with two correct answers.\<close>

theorem quiz_last_correct_first_witness:
  "answers (quizChoices ([] @ ''? Q'' # [''* A'', ''* B'', ''- C''] @ []) ! length (quizChoices [])) ! 0 = ''B''"
proof -
  have h1: "isQuestion ''? Q''" by code_simp
  have h2: "\<forall>l\<in>set [''* A'', ''* B'', ''- C'']. \<not> isQuestion l" by code_simp
  have h4: "2 \<le> length (filter isCorrect [''* A'', ''* B'', ''- C''])" by code_simp
  have v: "markedText (last (filter isCorrect [''* A'', ''* B'', ''- C''])) = ''B''" by code_simp
  show ?thesis
    using quiz_last_correct_first [OF h1 h2 _ h4, of "[]" "[]"] v by simp
qed

text \<open>
  Claim C2 as stated fails: with the lines \<open>* A\<close> and \<open>* B\<close> in one question,
  element 0 of the answers is \<open>B\<close>, not the text of the first marked line.
\<close>

theorem quiz_first_correct_counterexample:
  "quizChoices [''? Q'', ''* A'', ''* B''] = [\<lparr>question = ''Q'', answers = [''B'', ''A'']\<rparr>] \<and>
   hd (filter isCorrect [''* A'', ''* B'']) = ''* A'' \<and>
   answers (quizChoices [''? Q'', ''* A'', ''* B''] ! 0) ! 0 \<noteq> markedText ''* A''"
  by code_simp

text \<open>
  Claim C5. A quiz block made of one question line, one line marked \<open>*\<close> and three
  lines marked \<open>-\<close>, the \<open>*\<close> line at any position among the four (\<open>ds1\<close> before
  it, \<open>ds2\<close> after it), is built into one question whose answers list has length 4,
  has the text of the \<open>*\<close> line at index 0 and the texts of the \<open>-\<close> lines after it
  in source order. The text of a line is written out: the trimmed line without its
  first character, trimmed again. The builder returns an object whenever its library
  is available.
\<close>

theorem quiz_one_correct_three_wrong:
  assumes "isQuestion q" and "isCorrect s" and "\<forall>d\<in>set (ds1 @ ds2). isWrong d"
    and "length (ds1 @ ds2) = 3" and "\<not> libMissing (singleChoice libs)"
  shows "\<exists>obj c. buildQuizObject (q # ds1 @ s # ds2) libs = Some obj \<and>
           choices (params obj) = [c] \<and>
           question c = trim (drop 1 (trim q)) \<and>
           length (answers c) = 4 \<and>
           answers c ! 0 = trim (drop 1 (trim s)) \<and>
           drop 1 (answers c) = map (\<lambda>d. trim (drop 1 (trim d))) (ds1 @ ds2)"
proof -
  define body where "body = ds1 @ s # ds2"
  have mt: "markedText = (\<lambda>d. trim (drop 1 (trim d)))"
    by (rule ext) (simp add: markedText_def substring1_def)
  have nq: "\<forall>l\<in>set body. \<not> isQuestion l"
    using assms(2,3) by (auto simp: body_def dest: isCorrect_not_isQuestion isWrong_not_isQuestion)
  have "filter isCorrect ds1 = []" and "filter isCorrect ds2 = []"
    using assms(3) by (auto simp: filter_empty_conv dest: isWrong_not_isCorrect)
  then have stars: "filter isCorrect body = [s]"
    using assms(2) by (simp add: body_def)
  have "\<not> isWrong s"
    using assms(2) isWrong_not_isCorrect by blast
  moreover have "filter isWrong ds1 = ds1" and "filter isWrong ds2 = ds2"
    using assms(3) by (auto simp: filter_id_conv)
  ultimately have dashes: "filter isWrong body = ds1 @ ds2"
    by (simp add: body_def)
  have "quizChoices (q # body) =
        [\<lparr>question = markedText q, answers = markedText s # map markedText (ds1 @ ds2)\<rparr>]"
    unfolding quizChoices_one_question [OF assms(1) nq] stars dashes by simp
  moreover obtain lib where "singleChoice libs = Some lib"
    using assms(5) by (cases "singleChoice libs") (auto simp: libMissing_def)
  ultimately have "\<exists>obj c. buildQuizObject (q # body) libs = Some obj \<and>
           choices (params obj) = [c] \<and>
           question c = markedText q \<and>
           length (answers c) = 4 \<and>
           answers c ! 0 = markedText s \<and>
           drop 1 (answers c) = map markedText (ds1 @ ds2)"
    using assms(4,5) by (simp add: buildQuizObject_def)
  then show ?thesis by (simp only: body_def mt)
qed

text \<open>
  C5's theorem at a block with the correct answer in third place: the answers are
  \<open>Paris\<close>, then \<open>London\<close>, \<open>Berlin\<close> and \<open>Madrid\<close>.
\<close>

theorem quiz_one_correct_three_wrong_witness:
  "\<exists>obj. buildQuizObject
            [''? Capital of France?'', ''- London'', '' -  Berlin '', ''  * Paris'', ''- Madrid'']
            (resolveVersions [] []) = Some obj \<and>
          choices (params obj) =
            [\<lparr>question = ''Capital of France?'',
              answers = [''Paris'', ''London'', ''Berlin'', ''Madrid'']\<rparr>]"
proof -
  have h1: "isQuestion ''? Capital of France?''" by code_simp
  have h2: "isCorrect ''  * Paris''" by code_simp
  have h3: "\<forall>d\<in>set ([''- London'', '' -  Berlin ''] @ [''- Madrid'']). isWrong d" by code_simp
  have h4: "length ([''- London'', '' -  Berlin ''] @ [''- Madrid'']) = 3" by simp
  have h5: "\<not> libMissing (singleChoice (resolveVersions [] []))" by code_simp
  have v0: "trim (drop 1 (trim ''? Capital of France?'')) = ''Capital of France?''" by code_simp
  have v1: "trim (drop 1 (trim ''  * Paris'')) = ''Paris''" by code_simp
  have v2: "map (\<lambda>d. trim (drop 1 (trim d))) ([''- London'', '' -  Berlin ''] @ [''- Madrid'']) =
            [''London'', ''Berlin'', ''Madrid'']" by code_simp
  obtain obj c where b: "buildQuizObject
        (''? Capital of France?'' # [''- London'', '' -  Berlin ''] @ ''  * Paris'' # [''- Madrid''])
        (resolveVersions [] []) = Some obj"
    and c: "choices (params obj) = [c]"
    and q: "question c = ''Capital of France?''"
    and l: "length (answers c) = 4"
    and a0: "answers c ! 0 = ''Paris''"
    and ar: "drop 1 (answers c) = [''London'', ''Berlin'', ''Madrid'']"
    using quiz_one_correct_three_wrong [OF h1 h2 h3 h4 h5] unfolding v0 v1 v2 by blast
  from l obtain x xs where ans: "answers c = x # xs"
    by (cases "answers c") auto
  with a0 ar have "answers c = [''Paris'', ''London'', ''Berlin'', ''Madrid'']"
    by simp
  with q have "c = \<lparr>question = ''Capital of France?'',
                     answers = [''Paris'', ''London'', ''Berlin'', ''Madrid'']\<rparr>"
    by (cases c) simp
  with b c show ?thesis by simp
qed

text \<open>
  Claim C10. A line \<open>l\<close> of a quiz block that stands before the first question line, or
  that is marked with none of \<open>?\<close>, \<open>*\<close> and \<open>-\<close>, contributes nothing: the built
  object is the one built from the block without that line. The builder is a total
  function with no failing branch, so the line causes no error either.
\<close>

theorem quiz_ignored_line:
  assumes "(\<not> isQuestion l \<and> (\<forall>x\<in>set xs. \<not> isQuestion x)) \<or>
           (\<not> isQuestion l \<and> \<not> isCorrect l \<and> \<not> isWrong l)"
  shows "buildQuizObject (xs @ l # ys) libs = buildQuizObject (xs @ ys) libs"
proof -
  have "quizStep (foldl quizStep ([], None) xs) l = foldl quizStep ([], None) xs"
    using assms
  proof (elim disjE conjE)
    assume "\<not> isQuestion l" and "\<forall>x\<in>set xs. \<not> isQuestion x"
    then show ?thesis by (simp add: quiz_before_first_question)
  next
    assume "\<not> isQuestion l" and "\<not> isCorrect l" and "\<not> isWrong l"
    then show ?thesis by (rule quizStep_unmarked)
  qed
  then have eq: "quizChoices (xs @ l # ys) = quizChoices (xs @ ys)"
    by (rule quizChoices_skip)
  show ?thesis
    unfolding buildQuizObject_def eq by (rule refl)
qed

text \<open>Both cases of C10's hypothesis, at concrete blocks.\<close>

theorem quiz_ignored_line_witness:
  "buildQuizObject ([''- early''] @ ''* too early'' # [''? Q'', ''* A'']) (resolveVersions [] []) =
     buildQuizObject ([''- early''] @ [''? Q'', ''* A'']) (resolveVersions [] []) \<and>
   buildQuizObject ([''? Q'', ''* A''] @ ''a remark'' # [''- B'']) (resolveVersions [] []) =
     buildQuizObject ([''? Q'', ''* A''] @ [''- B'']) (resolveVersions [] [])"
proof -
  have a: "(\<not> isQuestion ''* too early'' \<and> (\<forall>x\<in>set [''- early'']. \<not> isQuestion x)) \<or>
           (\<not> isQuestion ''* too early'' \<and> \<not> isCorrect ''* too early'' \<and> \<not> isWrong ''* too early'')"
    by code_simp
  have b: "(\<not> isQuestion ''a remark'' \<and> (\<forall>x\<in>set [''? Q'', ''* A'']. \<not> isQuestion x)) \<or>
           (\<not> isQuestion ''a remark'' \<and> \<not> isCorrect ''a remark'' \<and> \<not> isWrong ''a remark'')"
    by code_simp
  show ?thesis
    using quiz_ignored_line [OF a] quiz_ignored_line [OF b] by blast
qed

section \<open>Properties of the accordion builder\<close>

lemma accordion_before_first_marker:
  "\<forall>l\<in>set pre. \<not> isPanelMarker l \<Longrightarrow> foldl accordionStep ([], None) pre = ([], None)"
  by (induction pre) simp_all

lemma accordion_body:
  "\<forall>l\<in>set body. \<not> isPanelMarker l \<Longrightarrow>
   foldl accordionStep (ps @ [p], Some (length ps)) body =
     (ps @ [p\<lparr>markdownLines := markdownLines p @ body\<rparr>], Some (length ps))"
  by (induction body arbitrary: p) simp_all

text \<open>
  The part of claim C8 that holds for every block with exactly two marker lines: two
  panels in source order, the lines before the first marker in none of them, each body
  the lines between its marker and the next marker or the end of the block.
\<close>

lemma accordionPanels_two_markers:
  assumes "\<forall>l\<in>set pre. \<not> isPanelMarker l"
    and "isPanelMarker m1" and "\<forall>l\<in>set b1. \<not> isPanelMarker l"
    and "isPanelMarker m2" and "\<forall>l\<in>set b2. \<not> isPanelMarker l"
  shows "accordionPanels (pre @ m1 # b1 @ m2 # b2) =
         [\<lparr>panelTitle = panelTitleOf m1, markdownLines = b1\<rparr>,
          \<lparr>panelTitle = panelTitleOf m2, markdownLines = b2\<rparr>]"
proof -
  let ?p1 = "\<lparr>panelTitle = panelTitleOf m1, markdownLines = []\<rparr>"
  let ?p2 = "\<lparr>panelTitle = panelTitleOf m2, markdownLines = []\<rparr>"
  have "foldl accordionStep ([], None) (pre @ [m1]) = ([] @ [?p1], Some (length ([] :: panel list)))"
    using assms(1,2) by (simp add: accordion_before_first_marker)
  then have "foldl accordionStep ([], None) ((pre @ [m1]) @ b1) =
             ([] @ [?p1\<lparr>markdownLines := markdownLines ?p1 @ b1\<rparr>], Some (length ([] :: panel list)))"
    unfolding foldl_append [of _ _ "pre @ [m1]"]
    using accordion_body [OF assms(3), of "[]" ?p1] by simp
  then have "foldl accordionStep ([], None) (((pre @ [m1]) @ b1) @ [m2]) =
             ([?p1\<lparr>markdownLines := b1\<rparr>] @ [?p2], Some (length [?p1\<lparr>markdownLines := b1\<rparr>]))"
    unfolding foldl_append [of _ _ "(pre @ [m1]) @ b1"] using assms(4) by simp
  then have "foldl accordionStep ([], None) ((((pre @ [m1]) @ b1) @ [m2]) @ b2) =
             ([?p1\<lparr>markdownLines := b1\<rparr>] @ [?p2\<lparr>markdownLines := markdownLines ?p2 @ b2\<rparr>],
              Some (length [?p1\<lparr>markdownLines := b1\<rparr>]))"
    unfolding foldl_append [of _ _ "((pre @ [m1]) @ b1) @ [m2]"]
    using accordion_body [OF assms(5), of "[?p1\<lparr>markdownLines := b1\<rparr>]" ?p2] by simp
  then show ?thesis
    by (simp add: accordionPanels_def)
qed

text \<open>
  A marker that starts the line, three or more plus signs followed by white space only,
  gives the title \<open>Panel\<close>.
\<close>

lemma panelTitleOf_plain_marker:
  assumes "3 \<le> n" and "\<forall>c\<in>set ws. isWhiteSpace c"
  shows "panelTitleOf (replicate n (CHR ''+'') @ ws) = ''Panel''"
proof -
  let ?line = "replicate n (CHR ''+'') @ ws"
  obtain k where "n = 3 + k"
    using assms(1) by (auto simp: le_iff_add)
  then have "replicate n (CHR ''+'') = ''+++'' @ replicate k (CHR ''+'')"
    by (simp add: numeral_3_eq_3)
  then have sw: "startsWith ?line ''+++''"
    by (simp add: startsWith_def)
  have "\<not> isWhiteSpace (CHR ''+'')"
    by (simp add: isWhiteSpace_def)
  with assms(2) have nw: "\<forall>c\<in>set ws. c \<noteq> CHR ''+''"
    by blast
  have "dropWhile (\<lambda>c. c = CHR ''+'') ?line = dropWhile (\<lambda>c. c = CHR ''+'') ws"
    by (rule dropWhile_append2) simp
  also have "\<dots> = ws"
    using nw by (cases ws) simp_all
  finally have "stripPanelMarker ?line = dropWhile isWhiteSpace ws"
    using sw by (simp only: stripPanelMarker_def if_True)
  also have "\<dots> = []"
    using assms(2) by (simp only: dropWhile_eq_Nil_conv)
  finally have "trim (stripPanelMarker ?line) = []"
    by (simp add: trim_def)
  then show ?thesis
    by (simp add: panelTitleOf_def)
qed

text \<open>The titles of the built panels are those the loop collected, in the same order.\<close>

lemma buildAccordionObject_panels:
  assumes "buildAccordionObject toHtml ls libs = Some obj"
  shows "map fst (panels (params obj)) = map panelTitle (accordionPanels ls)"
  using assms
  by (auto simp: buildAccordionObject_def comp_def split: option.splits if_splits)

text \<open>
  Claim C8 at an indented marker. A line is a panel marker when its trimmed text starts
  with \<open>+++\<close>, but the marker is stripped from the untrimmed line by a pattern
  anchored at its start. The chapter body below gives the parser an accordion block
  whose first marker is indented and has no text after the plus signs. The code builds
  two panels in source order with the right bodies, and gives the first panel the
  title \<open>+++\<close> where the claim says \<open>Panel\<close>.
\<close>

theorem accordion_indented_marker_title:
  "parseChapterSegments (joinLines [''[ACCORDION]'', '' +++'', ''x'', ''+++ B'', ''y'']) =
     [\<lparr>kind = BAccordion, lines = ['' +++'', ''x'', ''+++ B'', ''y'']\<rparr>] \<and>
   isPanelMarker '' +++'' \<and> trim (drop 3 (trim '' +++'')) = [] \<and> isPanelMarker ''+++ B'' \<and>
   accordionPanels ['' +++'', ''x'', ''+++ B'', ''y''] =
     [\<lparr>panelTitle = ''+++'', markdownLines = [''x'']\<rparr>,
      \<lparr>panelTitle = ''B'', markdownLines = [''y'']\<rparr>]"
  by code_simp

section \<open>Properties of the segmentation parser\<close>

lemma flush_keeps_content:
  "textBlocksHaveContent blocks \<Longrightarrow> textBlocksHaveContent (fst (flush newType (blocks, cl, ct)))"
  by (auto simp: textBlocksHaveContent_def)

lemma parseStep_keeps_content:
  assumes "textBlocksHaveContent (fst st)"
  shows "textBlocksHaveContent (fst (parseStep st line))"
proof -
  obtain blocks cl ct where st: "st = (blocks, cl, ct)" by (cases st)
  have f: "\<And>t. textBlocksHaveContent (fst (flush t (blocks, cl, ct)))"
    using assms st by (simp only: flush_keeps_content fst_conv)
  have img: "textBlocksHaveContent (fst (flush BText (blocks, cl, ct)) @ [\<lparr>kind = BImage, lines = [trim line]\<rparr>])"
    using f [of BText] by (simp add: textBlocksHaveContent_def)
  show ?thesis
    unfolding st parseStep.simps Let_def
    using f img assms st by (simp split: prod.splits del: flush.simps) (metis fst_conv)
qed

lemma parseLoop_keeps_content:
  "textBlocksHaveContent (fst st) \<Longrightarrow> textBlocksHaveContent (fst (foldl parseStep st ls))"
  by (induction ls arbitrary: st) (simp_all add: parseStep_keeps_content)

text \<open>
  Claim C9. For every chapter body, no block of kind text that the segmentation parser
  returns has only blank lines: each holds a line whose trimmed text is not empty.
\<close>

theorem text_blocks_not_blank:
  "\<forall>b\<in>set (parseChapterSegments markdown).
     kind b = BText \<longrightarrow> list_ex (\<lambda>l. trim l \<noteq> []) (lines b)"
proof -
  have "textBlocksHaveContent (fst (([], [], BText) :: segState))"
    by (simp add: textBlocksHaveContent_def)
  then have "textBlocksHaveContent
      (fst (foldl parseStep ([], [], BText) (splitOn LF (normalizeNewlines markdown))))"
    by (rule parseLoop_keeps_content)
  then have "textBlocksHaveContent (parseChapterSegments markdown)"
    unfolding parseChapterSegments_def
    by (cases "foldl parseStep ([], [], BText) (splitOn LF (normalizeNewlines markdown))")
       (simp only: flush_keeps_content fst_conv)
  then show ?thesis by (simp only: textBlocksHaveContent_def)
qed

text \<open>C9's theorem at a chapter body with a blank text run before a tag.\<close>

theorem text_blocks_not_blank_witness:
  "\<lparr>kind = BText, lines = [''Hello'', []]\<rparr> \<in>
     set (parseChapterSegments (joinLines [''  '', ''[TEXT]'', ''Hello'', [], ''[QUIZ]'', '' ''])) \<and>
   list_ex (\<lambda>l. trim l \<noteq> []) [''Hello'', []]"
proof -
  let ?md = "joinLines [''  '', ''[TEXT]'', ''Hello'', [], ''[QUIZ]'', '' '']"
  let ?b = "\<lparr>kind = BText, lines = [''Hello'', []]\<rparr>"
  have m: "?b \<in> set (parseChapterSegments ?md)" by code_simp
  have "kind ?b = BText \<longrightarrow> list_ex (\<lambda>l. trim l \<noteq> []) (lines ?b)"
    using text_blocks_not_blank [of ?md] m by blast
  with m show ?thesis by simp
qed

lemma parse_example: "parseChapterSegments (joinLines [''  '', ''[TEXT]'', ''Hello'', '''', ''[QUIZ]'', '' '']) =
   [\<lparr>kind = BText, lines = [''Hello'', '''']\<rparr>, \<lparr>kind = BQuiz, lines = ['' '']\<rparr>]"
  by code_simp

lemma imageRegexTest_bang: "imageRegexTest t \<Longrightarrow> \<exists>r. t = CHR ''!'' # r"
  by (cases t) (auto simp: imageRegexTest_def startsWith_def)



lemma flush_imageInvariant:
  "imageInvariant st \<Longrightarrow> newType \<noteq> BImage \<Longrightarrow> imageInvariant (flush newType st)"
  by (cases st) (auto simp: imageInvariant_def imageBlocksSeparate_def)

lemma parseStep_imageInvariant:
  assumes "imageInvariant st"
  shows "imageInvariant (parseStep st line)"
proof -
  obtain blocks cl ct where st: "st = (blocks, cl, ct)" by (cases st)
  have f: "\<And>t. t \<noteq> BImage \<Longrightarrow> imageInvariant (flush t (blocks, cl, ct))"
    using assms st flush_imageInvariant by blast
  show ?thesis
  proof (cases "imageRegexTest (trim line) \<and> ct = BText")
    case True
    obtain r where "trim line = CHR ''!'' # r"
      using True imageRegexTest_bang by blast
    then have step: "parseStep st line =
        (fst (flush BText (blocks, cl, ct)) @ [\<lparr>kind = BImage, lines = [trim line]\<rparr>], [], BText)"
      using True st by (simp del: flush.simps split: prod.splits)
    have "imageBlocksSeparate (fst (flush BText (blocks, cl, ct)))"
      using f [of BText] by (cases "flush BText (blocks, cl, ct)") (simp add: imageInvariant_def)
    then have "imageBlocksSeparate
        (fst (flush BText (blocks, cl, ct)) @ [\<lparr>kind = BImage, lines = [trim line]\<rparr>])"
      using True by (simp add: imageBlocksSeparate_def)
    then show ?thesis
      unfolding step by (simp add: imageInvariant_def)
  next
    case False
    have app: "imageInvariant (blocks, cl @ [line], ct)"
      using assms st False by (auto simp: imageInvariant_def)
    show ?thesis
      unfolding st parseStep.simps Let_def
      using f app False by (auto simp del: flush.simps)
  qed
qed

lemma parseLoop_imageInvariant:
  "imageInvariant st \<Longrightarrow> imageInvariant (foldl parseStep st ls)"
  by (induction ls arbitrary: st) (simp_all add: parseStep_imageInvariant)

text \<open>
  For every chapter body, an image block of the result has exactly one line, and a line
  that matches the image pattern is in no text block of the result.
\<close>

lemma image_blocks_separate: "imageBlocksSeparate (parseChapterSegments markdown)"
proof -
  have "imageInvariant ([], [], BText)"
    by (simp add: imageInvariant_def imageBlocksSeparate_def)
  then have "imageInvariant (foldl parseStep ([], [], BText) (splitOn LF (normalizeNewlines markdown)))"
    by (rule parseLoop_imageInvariant)
  then have "imageInvariant
      (flush BText (foldl parseStep ([], [], BText) (splitOn LF (normalizeNewlines markdown))))"
    by (rule flush_imageInvariant) simp
  then show ?thesis
    unfolding parseChapterSegments_def
    by (cases "flush BText (foldl parseStep ([], [], BText) (splitOn LF (normalizeNewlines markdown)))")
       (simp add: imageInvariant_def)
qed

section \<open>Properties of the chapter splitter\<close>

lemma dropWhile_all_white:
  "(\<forall>c\<in>set (dropWhile isWhiteSpace s). isWhiteSpace c) \<longleftrightarrow> dropWhile isWhiteSpace s = []"
proof
  assume all: "\<forall>c\<in>set (dropWhile isWhiteSpace s). isWhiteSpace c"
  show "dropWhile isWhiteSpace s = []"
  proof (rule ccontr)
    assume ne: "dropWhile isWhiteSpace s \<noteq> []"
    then have "\<not> isWhiteSpace (hd (dropWhile isWhiteSpace s))" by (rule hd_dropWhile)
    with all ne show False using hd_in_set by blast
  qed
next
  assume e: "dropWhile isWhiteSpace s = []"
  show "\<forall>c\<in>set (dropWhile isWhiteSpace s). isWhiteSpace c"
    unfolding e by simp
qed

lemma trim_empty_iff: "trim s = [] \<longleftrightarrow> (\<forall>c\<in>set s. isWhiteSpace c)"
proof -
  have "trim s = [] \<longleftrightarrow> dropWhile isWhiteSpace (rev (dropWhile isWhiteSpace s)) = []"
    by (simp add: trim_def)
  also have "\<dots> \<longleftrightarrow> (\<forall>c\<in>set (dropWhile isWhiteSpace s). isWhiteSpace c)"
    unfolding dropWhile_eq_Nil_conv by simp
  also have "\<dots> \<longleftrightarrow> dropWhile isWhiteSpace s = []"
    by (rule dropWhile_all_white)
  also have "\<dots> \<longleftrightarrow> (\<forall>c\<in>set s. isWhiteSpace c)"
    by (rule dropWhile_eq_Nil_conv)
  finally show ?thesis .
qed

lemma blank_not_heading: "trim l = [] \<Longrightarrow> \<not> isHeading l"
  by (simp add: isHeading_def startsWith_def)

lemma joinLines_push_char: "joinLines ((c # l) # ls) = c # joinLines (l # ls)"
  by (cases ls) simp_all

lemma joinLines_splitOn: "joinLines (splitOn LF s) = s"
proof (induction s)
  case Nil
  then show ?case by simp
next
  case (Cons c cs)
  obtain l ls where sp: "splitOn LF cs = l # ls"
    using splitOn_not_empty [of LF cs] by (cases "splitOn LF cs") auto
  with Cons show ?case by (simp add: joinLines_push_char)
qed

lemma documentLines_not_empty: "documentLines text \<noteq> []"
  by (simp add: documentLines_def splitOn_not_empty)

lemma joinLines_documentLines: "joinLines (documentLines text) = normalizeNewlines text"
  by (simp add: documentLines_def joinLines_splitOn)

lemma splitLoop_no_heading:
  "\<forall>l\<in>set ls. \<not> isHeading l \<Longrightarrow>
   foldl splitStep (cs, t, cl, imp) ls = (cs, t, cl @ ls, imp)"
  by (induction ls arbitrary: cl) simp_all

lemma splitLines_no_heading:
  assumes "\<forall>l\<in>set ls. \<not> isHeading l" and "ls \<noteq> []"
  shows "splitLines ls = [\<lparr>title = ''Introduction'', content = joinLines ls\<rparr>]"
proof -
  have "splitInit ls = ([], ''Introduction'', [], True)"
    using assms by (cases ls) (simp_all add: splitInit_def)
  then show ?thesis
    using assms by (simp add: splitLines_def splitLoop_no_heading)
qed

text \<open>
  Claim C1, as the code has it. A document whose lines are all blank (so none is a
  level-1 heading) is split into exactly one chapter, the implicit one titled
  \<open>Introduction\<close>, whose content is the normalised document; the build does not
  fail with the no-chapters error at this step.
\<close>

theorem blank_document_one_chapter:
  assumes "\<forall>l\<in>set (documentLines text). trim l = []"
  shows "parseMarkdown text =
         Inr [\<lparr>title = ''Introduction'', content = normalizeNewlines text\<rparr>]"
proof -
  have "\<forall>l\<in>set (documentLines text). \<not> isHeading l"
    using assms blank_not_heading by blast
  then have "splitLines (documentLines text) =
             [\<lparr>title = ''Introduction'', content = joinLines (documentLines text)\<rparr>]"
    using documentLines_not_empty by (rule splitLines_no_heading)
  then show ?thesis
    by (simp add: parseMarkdown_def joinLines_documentLines)
qed

text \<open>
  Claim C1 as stated fails: a document of two blank lines, and the empty document, give
  one chapter and no error.
\<close>

theorem blank_document_counterexample:
  "list_all (\<lambda>l. trim l = [] \<and> \<not> isHeading l) (documentLines (joinLines ['''', ''  ''])) \<and>
   parseMarkdown (joinLines ['''', ''  '']) =
     Inr [\<lparr>title = ''Introduction'', content = joinLines ['''', ''  '']\<rparr>] \<and>
   parseMarkdown [] = Inr [\<lparr>title = ''Introduction'', content = []\<rparr>]"
  by code_simp

text \<open>The hypothesis of C1's theorem holds for a document of two blank lines.\<close>

theorem blank_document_one_chapter_witness:
  "parseMarkdown (joinLines ['''', ''  '']) =
     Inr [\<lparr>title = ''Introduction'', content = normalizeNewlines (joinLines ['''', ''  ''])\<rparr>]"
proof -
  have "\<forall>l\<in>set (documentLines (joinLines ['''', ''  ''])). trim l = []"
    by code_simp
  then show ?thesis by (rule blank_document_one_chapter)
qed

lemma trim_not_empty_iff: "trim s \<noteq> [] \<longleftrightarrow> (\<exists>c\<in>set s. \<not> isWhiteSpace c)"
  by (simp add: trim_empty_iff)

lemma trim_decompose: "\<exists>a b. s = a @ trim s @ b \<and> (\<forall>c\<in>set a. isWhiteSpace c) \<and> (\<forall>c\<in>set b. isWhiteSpace c)"
proof -
  let ?a = "takeWhile isWhiteSpace s"
  let ?m = "dropWhile isWhiteSpace s"
  let ?b = "rev (takeWhile isWhiteSpace (rev ?m))"
  have "rev ?m = takeWhile isWhiteSpace (rev ?m) @ dropWhile isWhiteSpace (rev ?m)"
    by simp
  then have "?m = rev (dropWhile isWhiteSpace (rev ?m)) @ ?b"
    by (metis rev_append rev_rev_ident)
  then have "s = ?a @ trim s @ ?b"
    by (metis takeWhile_dropWhile_id trim_def)
  moreover have "\<forall>c\<in>set ?a. isWhiteSpace c"
    by (auto dest: set_takeWhileD)
  moreover have "\<forall>c\<in>set ?b. isWhiteSpace c"
    by (auto dest: set_takeWhileD)
  ultimately show ?thesis by blast
qed

lemma trim_last_not_white: "trim s \<noteq> [] \<Longrightarrow> \<not> isWhiteSpace (last (trim s))"
proof -
  assume ne: "trim s \<noteq> []"
  let ?d = "dropWhile isWhiteSpace (rev (dropWhile isWhiteSpace s))"
  from ne have "?d \<noteq> []" by (simp add: trim_def)
  then have "\<not> isWhiteSpace (hd ?d)" by (rule hd_dropWhile)
  moreover have "last (trim s) = hd ?d"
    using \<open>?d \<noteq> []\<close> by (simp add: trim_def last_rev)
  ultimately show ?thesis by simp
qed

lemma isWhiteSpace_space: "isWhiteSpace (CHR '' '')"
  by (simp add: isWhiteSpace_def)

lemma isWhiteSpace_hash: "\<not> isWhiteSpace (CHR ''#'')"
  by (simp add: isWhiteSpace_def)

lemma headingTitle_not_empty:
  assumes "isHeading h"
  shows "headingTitle h \<noteq> []"
proof -
  obtain r where t: "trim h = CHR ''#'' # CHR '' '' # r"
    using assms by (cases "trim h"; cases "tl (trim h)") (auto simp: isHeading_def startsWith_def)
  then have tne: "trim h \<noteq> []" by simp
  have "\<not> isWhiteSpace (last (trim h))"
    using tne by (rule trim_last_not_white)
  then have rne: "r \<noteq> []" and rl: "\<not> isWhiteSpace (last r)"
    using t isWhiteSpace_space by (auto split: if_splits)
  then have rnw: "\<exists>c\<in>set r. \<not> isWhiteSpace c"
    using last_in_set by blast
  obtain a b where dec: "h = a @ trim h @ b" and wa: "\<forall>c\<in>set a. isWhiteSpace c"
    using trim_decompose by blast
  show ?thesis
  proof (cases "\<exists>r0. h = CHR ''#'' # r0 \<and> r0 \<noteq> [] \<and> isWhiteSpace (hd r0)")
    case True
    then obtain r0 where h: "h = CHR ''#'' # r0" and "r0 \<noteq> []" and "isWhiteSpace (hd r0)"
      by blast
    have "a = []"
      using dec wa h isWhiteSpace_hash by (cases a) auto
    with dec t h have r0: "r0 = CHR '' '' # r @ b" by simp
    have "\<exists>c\<in>set (dropWhile isWhiteSpace r0). \<not> isWhiteSpace c"
    proof -
      from rnw obtain c where "c \<in> set r" and "\<not> isWhiteSpace c" by blast
      then have "c \<in> set r0" and "\<not> isWhiteSpace c" using r0 by auto
      then show ?thesis
        by (metis dropWhile_eq_Nil_conv hd_dropWhile hd_in_set)
    qed
    then have "trim (dropWhile isWhiteSpace r0) \<noteq> []"
      by (simp add: trim_not_empty_iff)
    then show ?thesis
      using h \<open>r0 \<noteq> []\<close> \<open>isWhiteSpace (hd r0)\<close> by (simp add: headingTitle_def)
  next
    case False
    then have "headingTitle h = trim h"
      by (cases h) (auto simp: headingTitle_def)
    then show ?thesis using tne by simp
  qed
qed


lemma splitStep_someChapter: "someChapter st \<Longrightarrow> someChapter (splitStep st l)"
  by (cases st) (auto simp: someChapter_def)

lemma splitLoop_someChapter: "someChapter st \<Longrightarrow> someChapter (foldl splitStep st ls)"
  by (induction ls arbitrary: st) (simp_all add: splitStep_someChapter)

lemma someChapter_result:
  assumes "someChapter (foldl splitStep (splitInit ls) ls)"
  shows "splitLines ls \<noteq> []"
  using assms by (auto simp: splitLines_def someChapter_def split: prod.splits)

lemma splitLines_empty_iff: "splitLines ls = [] \<longleftrightarrow> ls = [] \<or> (\<exists>h. ls = [h] \<and> isHeading h)"
proof (cases ls)
  case Nil
  then show ?thesis by (simp add: splitLines_def splitInit_def)
next
  case (Cons l rest)
  show ?thesis
  proof (cases "isHeading l")
    case False
    have "someChapter (splitStep (splitInit ls) l)"
      using False Cons by (simp add: splitInit_def someChapter_def)
    then have "someChapter (foldl splitStep (splitInit ls) ls)"
      unfolding Cons foldl_Cons by (rule splitLoop_someChapter)
    then have "splitLines ls \<noteq> []" by (rule someChapter_result)
    with False Cons show ?thesis by auto
  next
    case True
    then have t: "headingTitle l \<noteq> []" by (rule headingTitle_not_empty)
    have first: "splitStep (splitInit ls) l = ([], headingTitle l, [], False)"
      using True Cons by (simp add: splitInit_def)
    show ?thesis
    proof (cases rest)
      case Nil
      with Cons True first show ?thesis by (simp add: splitLines_def)
    next
      case (Cons m rest')
      have "someChapter (splitStep ([], headingTitle l, [], False) m)"
        using t by (simp add: someChapter_def)
      then have "someChapter (foldl splitStep (splitInit ls) ls)"
        unfolding \<open>ls = l # rest\<close> Cons foldl_Cons
        using first splitLoop_someChapter \<open>ls = l # rest\<close> Cons by simp
      then have "splitLines ls \<noteq> []" by (rule someChapter_result)
      with \<open>ls = l # rest\<close> Cons show ?thesis by simp
    qed
  qed
qed

text \<open>
  The no-chapters error is thrown for exactly one shape of document: a single line that
  is a level-1 heading.
\<close>

lemma no_chapters_iff:
  "parseMarkdown text = Inl NoChaptersFound \<longleftrightarrow> (\<exists>h. documentLines text = [h] \<and> isHeading h)"
  using documentLines_not_empty [of "text"]
  by (auto simp: parseMarkdown_def Let_def splitLines_empty_iff)

lemma splitStep_appends:
  "\<exists>ys t1 cl1 imp1. splitStep (cs, t, cl, imp) l = (cs @ ys, t1, cl1, imp1)"
proof (cases "isHeading l \<and> t \<noteq> [] \<and> (cl \<noteq> [] \<or> \<not> imp)")
  case True
  then have "splitStep (cs, t, cl, imp) l =
             (cs @ [\<lparr>title = t, content = joinLines cl\<rparr>], headingTitle l, [], False)"
    by simp
  then show ?thesis by blast
next
  case False
  then have "\<exists>t1 cl1 imp1. splitStep (cs, t, cl, imp) l = (cs @ [], t1, cl1, imp1)"
    by (cases "isHeading l") auto
  then show ?thesis by blast
qed

lemma splitLoop_appends:
  "\<exists>ys t' cl' imp'. foldl splitStep (cs, t, cl, imp) ls = (cs @ ys, t', cl', imp')"
proof (induction ls arbitrary: cs t cl imp)
  case Nil
  then show ?case by simp
next
  case (Cons l ls)
  obtain t1 cl1 imp1 ys1 where st: "splitStep (cs, t, cl, imp) l = (cs @ ys1, t1, cl1, imp1)"
    using splitStep_appends by blast
  from Cons.IH [of "cs @ ys1" t1 cl1 imp1] st show ?case
    by (metis append.assoc foldl_Cons)
qed

lemma splitLines_starts_with:
  assumes "foldl splitStep st0 pre = (c # cs, t, cl, imp)"
  shows "\<exists>cs'. (case foldl splitStep st0 (pre @ ls) of
            (chaptersData, currentTitle, currentLines, isImplicit) \<Rightarrow>
              if currentTitle \<noteq> [] \<and> currentLines \<noteq> []
              then chaptersData @ [\<lparr>title = currentTitle, content = joinLines currentLines\<rparr>]
              else chaptersData) = c # cs'"
proof -
  obtain ys t' cl' imp' where "foldl splitStep (c # cs, t, cl, imp) ls = ((c # cs) @ ys, t', cl', imp')"
    using splitLoop_appends by blast
  then show ?thesis using assms by simp
qed

text \<open>
  Claim C4, as the code has it. When the first line of the document is a level-1
  heading and the document has a further line, no implicit chapter is emitted: the
  first chapter is the one of that heading, with the heading's title and the lines up to
  the next heading as content.
\<close>

theorem first_line_heading:
  assumes "documentLines text = h # body @ rest" and "isHeading h"
    and "\<forall>l\<in>set body. \<not> isHeading l"
    and "rest = [] \<or> isHeading (hd rest)"
    and "body \<noteq> [] \<or> rest \<noteq> []"
  shows "\<exists>cs. parseMarkdown text =
           Inr (\<lparr>title = headingTitle h, content = joinLines body\<rparr> # cs)"
proof -
  let ?ls = "h # body @ rest"
  let ?c = "\<lparr>title = headingTitle h, content = joinLines body\<rparr>"
  have t: "headingTitle h \<noteq> []"
    using assms(2) by (rule headingTitle_not_empty)
  have init: "splitInit ?ls = ([], [], [], False)"
    using assms(2) by (simp add: splitInit_def)
  have upto: "foldl splitStep (splitInit ?ls) (h # body) = ([], headingTitle h, body, False)"
    using assms(2,3) by (simp add: init splitLoop_no_heading)
  have "\<exists>cs. splitLines ?ls = ?c # cs"
  proof (cases rest)
    case Nil
    with assms(5) have "body \<noteq> []" by simp
    with Nil upto t show ?thesis by (simp add: splitLines_def)
  next
    case (Cons r rest')
    with assms(4) have r: "isHeading r" by simp
    have "foldl splitStep (splitInit ?ls) ((h # body) @ [r]) = ([?c], headingTitle r, [], False)"
      unfolding foldl_append upto using r t by simp
    from splitLines_starts_with [OF this, of rest'] show ?thesis
      using Cons by (simp add: splitLines_def)
  qed
  then show ?thesis
    using assms(1) by (auto simp: parseMarkdown_def)
qed

text \<open>The hypotheses of C4's theorem hold for a document of two chapters.\<close>

theorem first_line_heading_witness:
  "\<exists>cs. parseMarkdown (joinLines [''# A'', ''body'', [], ''# B'', ''more'']) =
           Inr (\<lparr>title = headingTitle ''# A'', content = joinLines [''body'', []]\<rparr> # cs)"
proof -
  have h1: "documentLines (joinLines [''# A'', ''body'', [], ''# B'', ''more'']) =
            ''# A'' # [''body'', []] @ [''# B'', ''more'']"
    by code_simp
  have h2: "isHeading ''# A''" by code_simp
  have h3: "\<forall>l\<in>set [''body'', []]. \<not> isHeading l" by code_simp
  have h4: "[''# B'', ''more''] = [] \<or> isHeading (hd [''# B'', ''more''])" by code_simp
  have h5: "[''body'', []] \<noteq> [] \<or> [''# B'', ''more''] \<noteq> []" by simp
  show ?thesis
    by (rule first_line_heading [OF h1 h2 h3 h4 h5])
qed

text \<open>
  Claim C4 as stated fails: with a blank line before the first heading, the first
  non-blank line is a heading and yet the first chapter is the implicit one.
\<close>

theorem blank_before_heading_counterexample:
  "documentLines (joinLines [[], ''# A'', ''body'']) = [[], ''# A'', ''body''] \<and>
   trim [] = [] \<and> isHeading ''# A'' \<and>
   parseMarkdown (joinLines [[], ''# A'', ''body'']) =
     Inr [\<lparr>title = ''Introduction'', content = []\<rparr>, \<lparr>title = ''A'', content = ''body''\<rparr>]"
  by code_simp

section \<open>Properties of the library version resolver\<close>

lemma hd_splitOn: "hd (splitOn d s) = takeWhile (\<lambda>c. c \<noteq> d) s"
proof (induction s)
  case Nil
  then show ?case by simp
next
  case (Cons c cs)
  then show ?case
    using splitOn_not_empty [of d cs] by (cases "splitOn d cs") auto
qed

lemma getLibVersion_manifest:
  assumes "find (\<lambda>d. machineName d = name) deps = Some dep"
  shows "getLibVersion archive deps name dflt =
         name @ '' '' @ showNat (majorVersion dep) @ ''.'' @ showNat (minorVersion dep)"
proof -
  have "machineName dep = name"
    using assms by (auto simp: find_Some_iff)
  with assms show ?thesis by (simp add: getLibVersion_def)
qed

lemma getLibVersion_default:
  assumes "find (\<lambda>d. machineName d = name) deps = None"
    and "find (\<lambda>path. startsWith path (name @ ''-'') \<and> includesStr path ''/'') (map fst archive) = None"
  shows "getLibVersion archive deps name dflt = name @ '' '' @ dflt"
  using assms by (simp add: getLibVersion_def)

lemma accordion_folder_version:
  assumes "startsWith path ''H5P.Accordion-1.0/''"
  shows "removeFirst (hd (splitOn (CHR ''/'') path)) ''H5P.Accordion-'' = ''1.0''"
proof -
  have "path = take (length ''H5P.Accordion-1.0/'') path @ drop (length ''H5P.Accordion-1.0/'') path"
    by simp
  then obtain r where p: "path = ''H5P.Accordion-1.0/'' @ r"
    using assms unfolding startsWith_def by metis
  have "hd (splitOn (CHR ''/'') path) = ''H5P.Accordion-1.0''"
    unfolding hd_splitOn p by simp
  moreover have "removeFirst ''H5P.Accordion-1.0'' ''H5P.Accordion-'' = ''1.0''"
    by code_simp
  ultimately show ?thesis by simp
qed

lemma getLibVersion_accordion_folder:
  assumes "find (\<lambda>d. machineName d = ''H5P.Accordion'') deps = None"
    and "find (\<lambda>path. startsWith path ''H5P.Accordion-'' \<and> includesStr path ''/'') (map fst archive) = Some path"
    and "startsWith path ''H5P.Accordion-1.0/''"
  shows "getLibVersion archive deps ''H5P.Accordion'' dflt = ''H5P.Accordion 1.0''"
proof -
  have v: "isVersion ''1.0''" by code_simp
  show ?thesis
    using assms(1,2) accordion_folder_version [OF assms(3)] v
    by (simp add: getLibVersion_def)
qed

lemma accordion_resolved:
  "accordion (resolveVersions archive deps) = Some (getLibVersion archive deps ''H5P.Accordion'' ''1.0'')"
  by (simp add: resolveVersions_def Let_def)

lemma not_missing: "\<not> libMissing (Some ''H5P.Accordion 1.0'')"
  by code_simp

text \<open>
  Claim C3, as the code has it, for the accordion entry of the table. (1) When the
  first dependency of the manifest named \<open>H5P.Accordion\<close> has version 1.0, the entry is
  \<open>H5P.Accordion 1.0\<close>. (2) When the manifest has no such dependency and the first
  archive path that starts with \<open>H5P.Accordion-\<close> and contains a separator lies in the
  folder \<open>H5P.Accordion-1.0/\<close>, the entry is the same string. (3) When the name is in
  neither, the entry is the name with the default version, again \<open>H5P.Accordion 1.0\<close>,
  which no builder takes for a missing library.
\<close>

theorem resolve_accordion:
  "(find (\<lambda>d. machineName d = ''H5P.Accordion'') deps = Some dep \<and>
      majorVersion dep = 1 \<and> minorVersion dep = 0 \<longrightarrow>
      accordion (resolveVersions archive deps) = Some ''H5P.Accordion 1.0'') \<and>
   (find (\<lambda>d. machineName d = ''H5P.Accordion'') deps = None \<and>
      find (\<lambda>path. startsWith path ''H5P.Accordion-'' \<and> includesStr path ''/'') (map fst archive) =
        Some path \<and>
      startsWith path ''H5P.Accordion-1.0/'' \<longrightarrow>
      accordion (resolveVersions archive deps) = Some ''H5P.Accordion 1.0'') \<and>
   (find (\<lambda>d. machineName d = ''H5P.Accordion'') deps = None \<and>
      find (\<lambda>path. startsWith path ''H5P.Accordion-'' \<and> includesStr path ''/'') (map fst archive) =
        None \<longrightarrow>
      accordion (resolveVersions archive deps) = Some ''H5P.Accordion 1.0'' \<and>
      \<not> libMissing (accordion (resolveVersions archive deps)))"
proof (intro conjI impI)
  assume a: "find (\<lambda>d. machineName d = ''H5P.Accordion'') deps = Some dep \<and>
      majorVersion dep = 1 \<and> minorVersion dep = 0"
  have "showNat 1 = ''1''" and "showNat 0 = ''0''" by code_simp+
  with a show "accordion (resolveVersions archive deps) = Some ''H5P.Accordion 1.0''"
    by (simp add: accordion_resolved getLibVersion_manifest [of "''H5P.Accordion''" deps dep])
next
  assume "find (\<lambda>d. machineName d = ''H5P.Accordion'') deps = None \<and>
      find (\<lambda>path. startsWith path ''H5P.Accordion-'' \<and> includesStr path ''/'') (map fst archive) =
        Some path \<and>
      startsWith path ''H5P.Accordion-1.0/''"
  then show "accordion (resolveVersions archive deps) = Some ''H5P.Accordion 1.0''"
    by (simp add: accordion_resolved getLibVersion_accordion_folder)
next
  assume a: "find (\<lambda>d. machineName d = ''H5P.Accordion'') deps = None \<and>
      find (\<lambda>path. startsWith path ''H5P.Accordion-'' \<and> includesStr path ''/'') (map fst archive) =
        None"
  then have "getLibVersion archive deps ''H5P.Accordion'' ''1.0'' = ''H5P.Accordion'' @ '' '' @ ''1.0''"
    by (intro getLibVersion_default) simp_all
  then show "accordion (resolveVersions archive deps) = Some ''H5P.Accordion 1.0''"
    by (simp add: accordion_resolved)
  then show "\<not> libMissing (accordion (resolveVersions archive deps))"
    using not_missing by simp
qed

text \<open>
  Claim C3 as stated fails: with an empty manifest and an empty archive the entry is a
  concrete version string and not a marker of unavailability; and an archive that holds
  the folder \<open>H5P.Accordion-1.0/\<close> after a folder of another version resolves to that
  other version.
\<close>

theorem resolve_accordion_counterexample:
  "find (\<lambda>d. machineName d = ''H5P.Accordion'') [] = None \<and>
   find (\<lambda>path. startsWith path ''H5P.Accordion-'' \<and> includesStr path ''/'') (map fst ([] :: zipFiles)) = None \<and>
   accordion (resolveVersions [] []) = Some ''H5P.Accordion 1.0'' \<and>
   \<not> libMissing (accordion (resolveVersions [] [])) \<and>
   getLibVersion
     [(''H5P.Accordion-2.3/'', \<lparr>dir = True, fileData = []\<rparr>),
      (''H5P.Accordion-1.0/'', \<lparr>dir = True, fileData = []\<rparr>)] [] ''H5P.Accordion'' ''1.0'' =
     ''H5P.Accordion 2.3''"
  by code_simp

text \<open>The three cases of C3's theorem at concrete manifests and archives.\<close>

theorem resolve_accordion_witness:
  "accordion (resolveVersions [] [\<lparr>machineName = ''H5P.Accordion'', majorVersion = 1, minorVersion = 0\<rparr>]) =
     Some ''H5P.Accordion 1.0'' \<and>
   accordion (resolveVersions [(''H5P.Accordion-1.0/library.json'', \<lparr>dir = False, fileData = ''{}''\<rparr>)] []) =
     Some ''H5P.Accordion 1.0'' \<and>
   accordion (resolveVersions [] []) = Some ''H5P.Accordion 1.0'' \<and>
   \<not> libMissing (accordion (resolveVersions [] []))"
proof -
  let ?dep = "\<lparr>machineName = ''H5P.Accordion'', majorVersion = 1, minorVersion = 0\<rparr>"
  let ?arch = "[(''H5P.Accordion-1.0/library.json'', \<lparr>dir = False, fileData = ''{}''\<rparr>)]"
  have a: "find (\<lambda>d. machineName d = ''H5P.Accordion'') [?dep] = Some ?dep \<and>
      majorVersion ?dep = 1 \<and> minorVersion ?dep = 0"
    by simp
  have b: "find (\<lambda>d. machineName d = ''H5P.Accordion'') [] = None \<and>
      find (\<lambda>path. startsWith path ''H5P.Accordion-'' \<and> includesStr path ''/'') (map fst ?arch) =
        Some ''H5P.Accordion-1.0/library.json'' \<and>
      startsWith ''H5P.Accordion-1.0/library.json'' ''H5P.Accordion-1.0/''"
    by code_simp
  have c: "find (\<lambda>d. machineName d = ''H5P.Accordion'') [] = None \<and>
      find (\<lambda>path. startsWith path ''H5P.Accordion-'' \<and> includesStr path ''/'') (map fst ([] :: zipFiles)) =
        None"
    by simp
  show ?thesis
    using resolve_accordion [of "[?dep]" ?dep "[]" "''''"] a
      resolve_accordion [of "[]" ?dep ?arch "''H5P.Accordion-1.0/library.json''"] b
      resolve_accordion [of "[]" ?dep "[]" "''''"] c
    by blast
qed

section \<open>Properties of the directory-entry repair\<close>

lemma keys_deleteKey: "fst ` set (deleteKey k fs) = fst ` set fs - {k}"
  unfolding deleteKey_def by auto

lemma deleteKey_keys: "map fst (deleteKey k fs) = filter (\<lambda>k'. k' \<noteq> k) (map fst fs)"
  by (induction fs) (simp_all add: deleteKey_def)

lemma deleteKey_absent: "k \<notin> fst ` set fs \<Longrightarrow> deleteKey k fs = fs"
  by (induction fs) (auto simp: deleteKey_def)

lemma moodleFixStep_dir:
  "isContentDirPath k \<Longrightarrow> map_of fs k = Some e \<Longrightarrow> dir e \<Longrightarrow>
   moodleFixStep (Inr fs) k = Inr (deleteKey k fs)"
  unfolding isContentDirPath_def by auto

lemma map_of_unique:
  assumes "distinct (map fst fs)" and "map_of fs k = Some e" and "x \<in> set fs" and "fst x = k"
  shows "snd x = e"
proof -
  have "(fst x, snd x) \<in> set fs" using assms(3) by simp
  then have "map_of fs (fst x) = Some (snd x)"
    using assms(1) by (rule map_of_is_SomeI [rotated])
  with assms(2,4) show ?thesis by simp
qed

lemma moodleLoop:
  assumes "distinct ks" and "set ks \<subseteq> fst ` set fs" and "distinct (map fst fs)"
  shows "foldl moodleFixStep (Inr fs) ks =
         Inr (filter (\<lambda>x. \<not> (fst x \<in> set ks \<and> isContentDirPath (fst x) \<and> dir (snd x))) fs)"
  using assms
proof (induction ks arbitrary: fs)
  case Nil
  then show ?case by simp
next
  case (Cons k ks)
  have sub: "set ks \<subseteq> fst ` set fs" and dist: "distinct ks" and knot: "k \<notin> set ks"
    using Cons.prems(1,2) by simp_all
  have "k \<in> fst ` set fs" using Cons.prems(2) by simp
  then have "map_of fs k \<noteq> None" by (simp only: map_of_eq_None_iff not_not)
  then obtain e where e: "map_of fs k = Some e" by blast
  have uniq: "\<And>x. x \<in> set fs \<Longrightarrow> fst x = k \<Longrightarrow> snd x = e"
    using Cons.prems(3) e by (rule map_of_unique)
  show ?case
  proof (cases "isContentDirPath k \<and> dir e")
    case False
    have "moodleFixStep (Inr fs) k = Inr fs"
      using False e by (auto simp: isContentDirPath_def)
    then have "foldl moodleFixStep (Inr fs) (k # ks) = foldl moodleFixStep (Inr fs) ks"
      by simp
    also have "\<dots> = Inr (filter (\<lambda>x. \<not> (fst x \<in> set ks \<and> isContentDirPath (fst x) \<and> dir (snd x))) fs)"
      using dist sub Cons.prems(3) by (rule Cons.IH)
    also have "filter (\<lambda>x. \<not> (fst x \<in> set ks \<and> isContentDirPath (fst x) \<and> dir (snd x))) fs =
               filter (\<lambda>x. \<not> (fst x \<in> set (k # ks) \<and> isContentDirPath (fst x) \<and> dir (snd x))) fs"
      using False uniq by (intro filter_cong refl) auto
    finally show ?thesis .
  next
    case True
    have "moodleFixStep (Inr fs) k = Inr (deleteKey k fs)"
      using moodleFixStep_dir [of k fs e] True e by blast
    then have "foldl moodleFixStep (Inr fs) (k # ks) = foldl moodleFixStep (Inr (deleteKey k fs)) ks"
      by simp
    also have "\<dots> = Inr (filter (\<lambda>x. \<not> (fst x \<in> set ks \<and> isContentDirPath (fst x) \<and> dir (snd x)))
                          (deleteKey k fs))"
    proof (rule Cons.IH [OF dist])
      show "set ks \<subseteq> fst ` set (deleteKey k fs)"
        unfolding keys_deleteKey using sub knot by blast
      show "distinct (map fst (deleteKey k fs))"
        using Cons.prems(3) by (simp add: deleteKey_keys)
    qed
    also have "filter (\<lambda>x. \<not> (fst x \<in> set ks \<and> isContentDirPath (fst x) \<and> dir (snd x))) (deleteKey k fs) =
               filter (\<lambda>x. \<not> (fst x \<in> set (k # ks) \<and> isContentDirPath (fst x) \<and> dir (snd x))) fs"
      unfolding deleteKey_def filter_filter using True uniq by (intro filter_cong refl) auto
    finally show ?thesis .
  qed
qed

text \<open>
  For every table with each path once, the repair returns the table without the entry
  \<open>content/\<close> and without the entries flagged as directories whose path starts with
  \<open>content/\<close> and ends in the separator; every other entry stays as it is, in place.
\<close>

lemma moodleFix_any_table:
  assumes "distinct (map fst files)"
  shows "moodleFix files =
         Inr (filter (\<lambda>x. fst x \<noteq> ''content/'' \<and> \<not> (isContentDirPath (fst x) \<and> dir (snd x))) files)"
proof -
  define files1 where
    "files1 = (if map_of files ''content/'' \<noteq> None then deleteKey ''content/'' files else files)"
  have f1: "files1 = deleteKey ''content/'' files"
  proof (cases "map_of files ''content/''")
    case None
    then have "''content/'' \<notin> fst ` set files" by (simp add: map_of_eq_None_iff)
    then have "deleteKey ''content/'' files = files"
      by (rule deleteKey_absent)
    with None show ?thesis by (simp add: files1_def)
  next
    case (Some e)
    then show ?thesis by (simp add: files1_def)
  qed
  have d1: "distinct (map fst files1)"
    using assms by (simp add: f1 deleteKey_keys)
  have "moodleFix files = foldl moodleFixStep (Inr files1) (map fst files1)"
    by (simp add: moodleFix_def files1_def Let_def)
  also have "\<dots> = Inr (filter (\<lambda>x. \<not> (fst x \<in> set (map fst files1) \<and> isContentDirPath (fst x) \<and> dir (snd x))) files1)"
    by (rule moodleLoop [OF d1 _ d1]) simp
  also have "filter (\<lambda>x. \<not> (fst x \<in> set (map fst files1) \<and> isContentDirPath (fst x) \<and> dir (snd x))) files1 =
             filter (\<lambda>x. fst x \<noteq> ''content/'' \<and> \<not> (isContentDirPath (fst x) \<and> dir (snd x))) files"
  proof -
    have "\<And>x. x \<in> set files \<Longrightarrow> fst x \<noteq> ''content/'' \<Longrightarrow> fst x \<in> fst ` set files1"
      by (simp add: f1 deleteKey_def)
    then show ?thesis
      unfolding f1 deleteKey_def filter_filter
      by (intro filter_cong refl) (auto simp: f1 deleteKey_def)
  qed
  finally show ?thesis .
qed

text \<open>
  When every entry whose path ends in the separator is flagged as a directory, the
  entries that go are those with a path under the content root ending in the separator.
\<close>

lemma moodleFix_filter:
  assumes "distinct (map fst files)"
    and "\<forall>x\<in>set files. endsWith (fst x) ''/'' \<longrightarrow> dir (snd x)"
  shows "moodleFix files = Inr (filter (\<lambda>x. \<not> isContentDirPath (fst x)) files)"
proof -
  have c: "isContentDirPath ''content/''" by code_simp
  have "filter (\<lambda>x. fst x \<noteq> ''content/'' \<and> \<not> (isContentDirPath (fst x) \<and> dir (snd x))) files =
        filter (\<lambda>x. \<not> isContentDirPath (fst x)) files"
    using assms(2) c by (intro filter_cong refl) (auto simp: isContentDirPath_def)
  then show ?thesis
    using moodleFix_any_table [OF assms(1)] by simp
qed

text \<open>
  Claim C6. Take an entry table as the archive library keeps it: each path once, and
  every entry whose path ends in the separator flagged as a directory. The repair
  returns a table (it does not throw) in which no path both starts with \<open>content/\<close>
  and ends in the separator, and every file entry of the old table is in the new table
  at the same path with the same contents.
\<close>

theorem moodleFix_removes_directories_only:
  assumes "distinct (map fst files)"
    and "\<forall>x\<in>set files. endsWith (fst x) ''/'' \<longrightarrow> dir (snd x)"
  shows "\<exists>files'. moodleFix files = Inr files' \<and>
           (\<forall>x\<in>set files'. \<not> (startsWith (fst x) ''content/'' \<and> endsWith (fst x) ''/'')) \<and>
           (\<forall>k e. map_of files k = Some e \<and> \<not> dir e \<longrightarrow> map_of files' k = Some e)"
proof -
  let ?files' = "filter (\<lambda>x. \<not> isContentDirPath (fst x)) files"
  have "moodleFix files = Inr ?files'"
    using assms by (rule moodleFix_filter)
  moreover have "\<forall>x\<in>set ?files'. \<not> (startsWith (fst x) ''content/'' \<and> endsWith (fst x) ''/'')"
    by (simp add: isContentDirPath_def)
  moreover have "\<forall>k e. map_of files k = Some e \<and> \<not> dir e \<longrightarrow> map_of ?files' k = Some e"
  proof (intro allI impI)
    fix k e
    assume a: "map_of files k = Some e \<and> \<not> dir e"
    then have "(k, e) \<in> set files" by (simp add: map_of_SomeD)
    with a assms(2) have nd: "\<not> isContentDirPath k"
      by (force simp: isContentDirPath_def)
    have "map_of ?files' k = map_of files k"
      using nd by (induction files) auto
    with a show "map_of ?files' k = Some e" by simp
  qed
  ultimately show ?thesis by blast
qed

text \<open>C6's theorem at a template archive with folder entries under the content root.\<close>

theorem moodleFix_removes_directories_only_witness:
  "\<exists>files'.
     moodleFix
       [(''h5p.json'', \<lparr>dir = False, fileData = ''{}''\<rparr>),
        (''content/'', \<lparr>dir = True, fileData = []\<rparr>),
        (''content/content.json'', \<lparr>dir = False, fileData = ''{chapters}''\<rparr>),
        (''content/images/'', \<lparr>dir = True, fileData = []\<rparr>),
        (''content/images/missing.jpg'', \<lparr>dir = False, fileData = ''JFIF''\<rparr>),
        (''H5P.Column-1.13/'', \<lparr>dir = True, fileData = []\<rparr>)] = Inr files' \<and>
     (\<forall>x\<in>set files'. \<not> (startsWith (fst x) ''content/'' \<and> endsWith (fst x) ''/'')) \<and>
     (\<forall>k e.
        map_of
          [(''h5p.json'', \<lparr>dir = False, fileData = ''{}''\<rparr>),
           (''content/'', \<lparr>dir = True, fileData = []\<rparr>),
           (''content/content.json'', \<lparr>dir = False, fileData = ''{chapters}''\<rparr>),
           (''content/images/'', \<lparr>dir = True, fileData = []\<rparr>),
           (''content/images/missing.jpg'', \<lparr>dir = False, fileData = ''JFIF''\<rparr>),
           (''H5P.Column-1.13/'', \<lparr>dir = True, fileData = []\<rparr>)] k = Some e \<and> \<not> dir e \<longrightarrow>
        map_of files' k = Some e)"
proof -
  let ?files =
    "[(''h5p.json'', \<lparr>dir = False, fileData = ''{}''\<rparr>),
      (''content/'', \<lparr>dir = True, fileData = []\<rparr>),
      (''content/content.json'', \<lparr>dir = False, fileData = ''{chapters}''\<rparr>),
      (''content/images/'', \<lparr>dir = True, fileData = []\<rparr>),
      (''content/images/missing.jpg'', \<lparr>dir = False, fileData = ''JFIF''\<rparr>),
      (''H5P.Column-1.13/'', \<lparr>dir = True, fileData = []\<rparr>)]"
  have h1: "distinct (map fst ?files)" by simp
  have h2: "\<forall>x\<in>set ?files. endsWith (fst x) ''/'' \<longrightarrow> dir (snd x)" by code_simp
  show ?thesis
    by (rule moodleFix_removes_directories_only [OF h1 h2])
qed

text \<open>The table that the repair returns for that archive.\<close>

lemma moodleFix_example:
  "moodleFix
     [(''h5p.json'', \<lparr>dir = False, fileData = ''{}''\<rparr>),
      (''content/'', \<lparr>dir = True, fileData = []\<rparr>),
      (''content/content.json'', \<lparr>dir = False, fileData = ''{chapters}''\<rparr>),
      (''content/images/'', \<lparr>dir = True, fileData = []\<rparr>),
      (''content/images/missing.jpg'', \<lparr>dir = False, fileData = ''JFIF''\<rparr>),
      (''H5P.Column-1.13/'', \<lparr>dir = True, fileData = []\<rparr>)] =
   Inr
     [(''h5p.json'', \<lparr>dir = False, fileData = ''{}''\<rparr>),
      (''content/content.json'', \<lparr>dir = False, fileData = ''{chapters}''\<rparr>),
      (''content/images/missing.jpg'', \<lparr>dir = False, fileData = ''JFIF''\<rparr>),
      (''H5P.Column-1.13/'', \<lparr>dir = True, fileData = []\<rparr>)]"
  by code_simp

end
